theory Spec2Isabelle
  imports Main "HOL-Library.Multiset"
begin

section \<open>Strings\<close>

text \<open>
  A JavaScript string is a sequence of UTF-16 code units. A code unit is modelled by its
  number (a natural number below 65536); \<open>str\<close> turns an ASCII literal into such a
  sequence.
\<close>

type_synonym jsstring = "nat list"

definition str :: "string \<Rightarrow> jsstring" where
  "str s = map of_char s"

text \<open>
  \<open>String.prototype.trim\<close> removes leading and trailing WhiteSpace and LineTerminator
  code points: TAB, LF, VT, FF, CR, SP, NBSP, U+1680, U+2000 to U+200A, LS, PS, U+202F,
  U+205F, U+3000 and U+FEFF.
\<close>

definition isWhiteSpace :: "nat \<Rightarrow> bool" where
  "isWhiteSpace c =
     ((9 \<le> c \<and> c \<le> 13) \<or> c = 32 \<or> c = 160 \<or> c = 5760 \<or> (8192 \<le> c \<and> c \<le> 8202)
      \<or> c = 8232 \<or> c = 8233 \<or> c = 8239 \<or> c = 8287 \<or> c = 12288 \<or> c = 65279)"

definition trim :: "jsstring \<Rightarrow> jsstring" where
  "trim s = rev (dropWhile isWhiteSpace (rev (dropWhile isWhiteSpace s)))"

definition lowerAscii :: "nat \<Rightarrow> nat" where
  "lowerAscii c = (if 65 \<le> c \<and> c \<le> 90 then c + 32 else c)"

definition isAscii :: "jsstring \<Rightarrow> bool" where
  "isAscii s = list_all (\<lambda>c. c < 128) s"

text \<open>
  \<open>String.prototype.toLowerCase\<close>. On a string of ASCII code units it lowers the
  letters A to Z and changes nothing else. On any other string the result is given by the
  Unicode case tables of the engine, which are not part of the program: that part is the
  parameter \<open>U\<close>.
\<close>

definition toLowerCase :: "(jsstring \<Rightarrow> jsstring) \<Rightarrow> jsstring \<Rightarrow> jsstring" where
  "toLowerCase U s = (if isAscii s then map lowerAscii s else U s)"

definition startsWith :: "jsstring \<Rightarrow> jsstring \<Rightarrow> bool" where
  "startsWith s t = (take (length t) s = t)"

text \<open>\<open>s.includes(t)\<close>: \<open>t\<close> occurs in \<open>s\<close> as a run of consecutive code units.\<close>

fun includesStr :: "jsstring \<Rightarrow> jsstring \<Rightarrow> bool" where
  "includesStr [] t = (t = [])"
| "includesStr (c # s) t = (startsWith (c # s) t \<or> includesStr s t)"

text \<open>\<open>/[^\u0000-\u007F]/.test(s)\<close>: some code unit of \<open>s\<close> is above 0x7F.\<close>

definition hasNonAscii :: "jsstring \<Rightarrow> bool" where
  "hasNonAscii s = list_ex (\<lambda>c. 127 < c) s"

section \<open>Messages\<close>

text \<open>
  The interface \<open>Message\<close>: two strings and an optional number. The timestamps of an
  export are integers (milliseconds), on which the arithmetic of JavaScript numbers is
  exact; \<open>None\<close> is the absent field.
\<close>

record Message =
  sender_name :: jsstring
  content :: jsstring
  timestamp_ms :: "int option"

section \<open>filterMessages\<close>

definition keepMessage :: "(jsstring \<Rightarrow> jsstring) \<Rightarrow> Message \<Rightarrow> bool" where
  "keepMessage U msg =
     (content msg \<noteq> []
      \<and> \<not> includesStr (toLowerCase U (content msg)) (str ''liked a message'')
      \<and> \<not> includesStr (toLowerCase U (content msg)) (str ''attachment'')
      \<and> \<not> includesStr (toLowerCase U (content msg)) (str ''like'')
      \<and> \<not> hasNonAscii (content msg))"

definition filterMessages :: "(jsstring \<Rightarrow> jsstring) \<Rightarrow> Message list \<Rightarrow> Message list" where
  "filterMessages U messages =
     filter (keepMessage U) (map (\<lambda>msg. msg\<lparr>content := trim (content msg)\<rparr>) messages)"

section \<open>Array.prototype.sort and Array.prototype.slice\<close>

text \<open>
  A comparator returns a number; \<open>None\<close> stands for NaN, which the sort reads as 0.
  \<open>Array.prototype.sort\<close> is stable, so for a consistent comparator its result is the
  one stable ordering of the array; the model builds it by insertion from the right.
  For a comparator that is not consistent (NaN between some elements only) ECMAScript
  leaves the order to the implementation, and the model gives one of the allowed results.
\<close>

definition sortCompare :: "('a \<Rightarrow> 'a \<Rightarrow> int option) \<Rightarrow> 'a \<Rightarrow> 'a \<Rightarrow> int" where
  "sortCompare cmp x y = (case cmp x y of None \<Rightarrow> 0 | Some v \<Rightarrow> v)"

fun insertBy :: "('a \<Rightarrow> 'a \<Rightarrow> int option) \<Rightarrow> 'a \<Rightarrow> 'a list \<Rightarrow> 'a list" where
  "insertBy cmp x [] = [x]"
| "insertBy cmp x (y # ys) =
     (if sortCompare cmp x y \<le> 0 then x # y # ys else y # insertBy cmp x ys)"

definition sortBy :: "('a \<Rightarrow> 'a \<Rightarrow> int option) \<Rightarrow> 'a list \<Rightarrow> 'a list" where
  "sortBy cmp xs = foldr (insertBy cmp) xs []"

text \<open>
  \<open>xs.slice(start, end)\<close> with integer arguments: a negative index counts from the
  end, both are clamped to the array, and an absent \<open>end\<close> is the length.
\<close>

definition relativeIndex :: "int \<Rightarrow> int \<Rightarrow> int" where
  "relativeIndex len i = (if i < 0 then max (len + i) 0 else min i len)"

definition slice :: "'a list \<Rightarrow> int \<Rightarrow> int option \<Rightarrow> 'a list" where
  "slice xs start end =
     (let len = int (length xs);
          k = relativeIndex len start;
          final = (case end of None \<Rightarrow> len | Some e \<Rightarrow> relativeIndex len e)
      in take (nat (final - k)) (drop (nat k) xs))"

section \<open>getSortedMessagesAscending, getLatestMessages, getEarliestMessages\<close>

text \<open>The parameter \<open>count\<close> of the two selections is written \<open>n\<close>.\<close>

text \<open>
  The filter \<open>(msg) => msg.timestamp_ms\<close> keeps a message when the field is truthy:
  present and not 0.
\<close>

definition truthyNumber :: "int option \<Rightarrow> bool" where
  "truthyNumber t = (case t of None \<Rightarrow> False | Some v \<Rightarrow> v \<noteq> 0)"

text \<open>\<open>a.timestamp_ms - b.timestamp_ms\<close>: NaN when a side is undefined.\<close>

definition subNumber :: "int option \<Rightarrow> int option \<Rightarrow> int option" where
  "subNumber a b =
     (case a of None \<Rightarrow> None | Some x \<Rightarrow> (case b of None \<Rightarrow> None | Some y \<Rightarrow> Some (x - y)))"

definition getSortedMessagesAscending :: "Message list \<Rightarrow> Message list" where
  "getSortedMessagesAscending messages =
     sortBy (\<lambda>a b. subNumber (timestamp_ms a) (timestamp_ms b))
       (filter (\<lambda>msg. truthyNumber (timestamp_ms msg)) messages)"

definition getLatestMessages :: "Message list \<Rightarrow> int \<Rightarrow> Message list" where
  "getLatestMessages messages n =
     (let sortedMessages = getSortedMessagesAscending messages
      in slice sortedMessages (- n) None)"

definition getEarliestMessages :: "Message list \<Rightarrow> int \<Rightarrow> Message list" where
  "getEarliestMessages messages n =
     (let sortedMessages = getSortedMessagesAscending messages
      in slice sortedMessages 0 (Some n))"

section \<open>decodeUnicode\<close>

definition isHexDigit :: "nat \<Rightarrow> bool" where
  "isHexDigit c = ((48 \<le> c \<and> c \<le> 57) \<or> (65 \<le> c \<and> c \<le> 70) \<or> (97 \<le> c \<and> c \<le> 102))"

definition hexValue :: "nat \<Rightarrow> nat" where
  "hexValue c = (if c \<le> 57 then c - 48 else if c \<le> 70 then c - 55 else c - 87)"

text \<open>
  The regular expression \<open>/\\u([0-9a-fA-F]{4})/\<close> matches at the head of a string:
  a backslash (92), the letter u (117) and four hexadecimal digits.
\<close>

definition escapeAt :: "jsstring \<Rightarrow> bool" where
  "escapeAt s =
     (6 \<le> length s \<and> take 2 s = [92, 117] \<and> list_all isHexDigit (take 4 (drop 2 s)))"

text \<open>
  \<open>s.replace(/\\u([0-9a-fA-F]{4})/g, "%u$1")\<close>: from left to right, every match is
  replaced by a percent sign (37), the letter u and the four digits of the match; the
  search goes on after the match.
\<close>

function replaceEscapes :: "jsstring \<Rightarrow> jsstring" where
  "replaceEscapes [] = []"
| "replaceEscapes (c # s) =
     (if escapeAt (c # s) then [37, 117] @ take 4 (drop 1 s) @ replaceEscapes (drop 5 s)
      else c # replaceEscapes s)"
  by pat_completeness auto
termination
  by (relation "measure length") auto

text \<open>
  \<open>decodeURIComponent\<close>, the \<open>Decode\<close> operation of ECMAScript with no reserved
  set; \<open>None\<close> is the URIError it throws. \<open>parseHexOctet\<close> reads the two code units
  after a percent sign.
\<close>

definition parseHexOctet :: "jsstring \<Rightarrow> nat option" where
  "parseHexOctet s =
     (case s of
        h1 # h2 # _ \<Rightarrow>
          if isHexDigit h1 \<and> isHexDigit h2 then Some (16 * hexValue h1 + hexValue h2) else None
      | _ \<Rightarrow> None)"

text \<open>The number of leading 1 bits of an octet with its top bit set.\<close>

definition leadingOnes :: "nat \<Rightarrow> nat" where
  "leadingOnes B =
     (if B < 192 then 1 else if B < 224 then 2 else if B < 240 then 3
      else if B < 248 then 4 else 5)"

text \<open>The \<open>j\<close> escapes \<open>%XX\<close> that must follow the first octet of a sequence.\<close>

fun continuationOctets :: "nat \<Rightarrow> jsstring \<Rightarrow> nat list option" where
  "continuationOctets 0 s = Some []"
| "continuationOctets (Suc j) s =
     (case s of
        [] \<Rightarrow> None
      | p # r \<Rightarrow>
          if p = 37 then
            (case parseHexOctet r of
               None \<Rightarrow> None
             | Some b \<Rightarrow> map_option (Cons b) (continuationOctets j (drop 2 r)))
          else None)"

definition isContinuation :: "nat \<Rightarrow> bool" where
  "isContinuation b = (128 \<le> b \<and> b < 192)"

text \<open>
  The code point of a multi-octet sequence that is a valid UTF-8 encoding: continuation
  octets of the form 10xxxxxx, no overlong form, no surrogate, at most U+10FFFF.
\<close>

definition utf8CodePoint :: "nat list \<Rightarrow> nat option" where
  "utf8CodePoint octets =
     (case octets of
        [b1, b2] \<Rightarrow>
          (let cp = (b1 mod 32) * 64 + b2 mod 64
           in if isContinuation b2 \<and> 128 \<le> cp then Some cp else None)
      | [b1, b2, b3] \<Rightarrow>
          (let cp = (b1 mod 16) * 4096 + (b2 mod 64) * 64 + b3 mod 64
           in if isContinuation b2 \<and> isContinuation b3 \<and> 2048 \<le> cp
                 \<and> (cp < 55296 \<or> 57343 < cp)
              then Some cp else None)
      | [b1, b2, b3, b4] \<Rightarrow>
          (let cp = (b1 mod 8) * 262144 + (b2 mod 64) * 4096 + (b3 mod 64) * 64 + b4 mod 64
           in if isContinuation b2 \<and> isContinuation b3 \<and> isContinuation b4
                 \<and> 65536 \<le> cp \<and> cp \<le> 1114111
              then Some cp else None)
      | _ \<Rightarrow> None)"

definition utf16Encode :: "nat \<Rightarrow> jsstring" where
  "utf16Encode cp =
     (if cp < 65536 then [cp]
      else [55296 + (cp - 65536) div 1024, 56320 + (cp - 65536) mod 1024])"

function decodeURIComponent :: "jsstring \<Rightarrow> jsstring option" where
  "decodeURIComponent [] = Some []"
| "decodeURIComponent (c # s) =
     (if c \<noteq> 37 then map_option (Cons c) (decodeURIComponent s)
      else
        (case parseHexOctet s of
           None \<Rightarrow> None
         | Some B \<Rightarrow>
             if B < 128 then map_option (Cons B) (decodeURIComponent (drop 2 s))
             else
               (let n = leadingOnes B
                in if n = 1 \<or> 4 < n then None
                   else
                     (case continuationOctets (n - 1) (drop 2 s) of
                        None \<Rightarrow> None
                      | Some octets \<Rightarrow>
                          (case utf8CodePoint (B # octets) of
                             None \<Rightarrow> None
                           | Some cp \<Rightarrow>
                               map_option (append (utf16Encode cp))
                                 (decodeURIComponent (drop (2 + 3 * (n - 1)) s)))))))"
  by pat_completeness auto
termination
  by (relation "measure length") auto

text \<open>
  \<open>decodeUnicode\<close>: the \<open>try\<close> returns the decoded string, the \<open>catch\<close> returns
  the argument.
\<close>

definition decodeUnicode :: "jsstring \<Rightarrow> jsstring" where
  "decodeUnicode unicodeString =
     (case decodeURIComponent (replaceEscapes unicodeString) of
        Some decoded \<Rightarrow> decoded
      | None \<Rightarrow> unicodeString)"

text \<open>Some position of the string starts an escape that the regular expression matches.\<close>

fun hasEscape :: "jsstring \<Rightarrow> bool" where
  "hasEscape [] = False"
| "hasEscape (c # s) = (escapeAt (c # s) \<or> hasEscape s)"

text \<open>
  Some position of the string starts a percent escape: a percent sign followed by two
  hexadecimal digits.
\<close>

fun hasPercentEscape :: "jsstring \<Rightarrow> bool" where
  "hasPercentEscape [] = False"
| "hasPercentEscape (c # s) = ((c = 37 \<and> parseHexOctet s \<noteq> None) \<or> hasPercentEscape s)"

text \<open>
  The string has no backslash, and none of its percent escapes encodes a percent sign or
  a backslash.
\<close>

fun decodesPlain :: "jsstring \<Rightarrow> bool" where
  "decodesPlain [] = True"
| "decodesPlain (c # s) =
     (c \<noteq> 92
      \<and> (if c = 37 then parseHexOctet s \<noteq> Some 37 \<and> parseHexOctet s \<noteq> Some 92 else True)
      \<and> decodesPlain s)"

section \<open>Objects\<close>

text \<open>
  An ordinary object used as a dictionary: its own properties as a list of key and value,
  each key once, in the order in which the properties were created. \<open>Object.keys\<close>,
  \<open>Object.values\<close> and \<open>Object.entries\<close> enumerate the keys that are array indices
  first (canonical decimal numerals up to 4294967294), in ascending numeric order, and
  then the other keys in creation order.
\<close>

type_synonym 'v object = "(jsstring \<times> 'v) list"

definition isDigit :: "nat \<Rightarrow> bool" where
  "isDigit c = (48 \<le> c \<and> c \<le> 57)"

definition digitsValue :: "jsstring \<Rightarrow> nat" where
  "digitsValue k = foldl (\<lambda>n c. 10 * n + (c - 48)) 0 k"

definition isArrayIndex :: "jsstring \<Rightarrow> bool" where
  "isArrayIndex k =
     (k \<noteq> [] \<and> list_all isDigit k \<and> (length k = 1 \<or> hd k \<noteq> 48)
      \<and> digitsValue k \<le> 4294967294)"

definition propertyOrder :: "jsstring list \<Rightarrow> jsstring list" where
  "propertyOrder ks =
     sort_key digitsValue (filter isArrayIndex ks) @ filter (\<lambda>k. \<not> isArrayIndex k) ks"

definition objectEntries :: "'v object \<Rightarrow> (jsstring \<times> 'v) list" where
  "objectEntries obj =
     sort_key (\<lambda>e. digitsValue (fst e)) (filter (\<lambda>e. isArrayIndex (fst e)) obj)
     @ filter (\<lambda>e. \<not> isArrayIndex (fst e)) obj"

definition objectKeys :: "'v object \<Rightarrow> jsstring list" where
  "objectKeys obj = map fst (objectEntries obj)"

definition objectValues :: "'v object \<Rightarrow> 'v list" where
  "objectValues obj = map snd (objectEntries obj)"

definition hasOwnProperty :: "'v object \<Rightarrow> jsstring \<Rightarrow> bool" where
  "hasOwnProperty obj k = (k \<in> set (map fst obj))"

definition getOwn :: "'v object \<Rightarrow> jsstring \<Rightarrow> 'v option" where
  "getOwn obj k = map_of obj k"

text \<open>An assignment to an own property keeps its place; a new property goes last.\<close>

definition setOwn :: "'v object \<Rightarrow> jsstring \<Rightarrow> 'v \<Rightarrow> 'v object" where
  "setOwn obj k v =
     (if hasOwnProperty obj k then map (\<lambda>e. if fst e = k then (k, v) else e) obj
      else obj @ [(k, v)])"

text \<open>
  The names every object literal inherits from \<open>Object.prototype\<close>. Reading one of
  them on an object that has no own property of that name gives the inherited member (a
  function, or the prototype itself for \<open>__proto__\<close>), a truthy value.
\<close>

definition objectPrototypeNames :: "jsstring list" where
  "objectPrototypeNames =
     map str [''constructor'', ''__defineGetter__'', ''__defineSetter__'', ''hasOwnProperty'',
       ''__lookupGetter__'', ''__lookupSetter__'', ''isPrototypeOf'', ''propertyIsEnumerable'',
       ''toString'', ''valueOf'', ''__proto__'', ''toLocaleString'']"

definition inherited :: "jsstring \<Rightarrow> bool" where
  "inherited k = (k \<in> set objectPrototypeNames)"

section \<open>getTopMessages\<close>

text \<open>
  A value stored in \<open>messageCounts\<close>: a number, or the text that \<open>+ 1\<close> makes of an
  inherited member (the member's source text followed by the digit 1, not a numeral).
  A chart is reduced to its labels and to the \<open>data\<close> of each of its datasets.
\<close>

datatype jsvalue = Number nat | Text

record ChartData =
  labels :: "jsstring list"
  datasets :: "jsvalue list list"

definition plusOne :: "jsvalue \<Rightarrow> jsvalue" where
  "plusOne v = (case v of Number n \<Rightarrow> Number (n + 1) | Text \<Rightarrow> Text)"

text \<open>
  The body of the loop, \<open>messageCounts[k] = (messageCounts[k] || 0) + 1\<close>. An own value
  is truthy (a number from 1 on, or a text). Without an own property the read gives
  \<open>undefined\<close>, and the count starts at 1, unless the name is inherited: then the sum is
  a text, stored as a new own property, except for \<open>__proto__\<close>, whose setter ignores a
  text and creates nothing.
\<close>

definition countMessage :: "jsvalue object \<Rightarrow> Message \<Rightarrow> jsvalue object" where
  "countMessage messageCounts msg =
     (case getOwn messageCounts (content msg) of
        Some v \<Rightarrow> setOwn messageCounts (content msg) (plusOne v)
      | None \<Rightarrow>
          if content msg = str ''__proto__'' then messageCounts
          else if inherited (content msg) then setOwn messageCounts (content msg) Text
          else setOwn messageCounts (content msg) (Number 1))"

text \<open>The comparator \<open>(a, b) => b[1] - a[1]\<close>; the difference with a text is NaN.\<close>

definition byCountDescending :: "jsstring \<times> jsvalue \<Rightarrow> jsstring \<times> jsvalue \<Rightarrow> int option" where
  "byCountDescending a b =
     (case snd b of
        Number y \<Rightarrow> (case snd a of Number x \<Rightarrow> Some (int y - int x) | Text \<Rightarrow> None)
      | Text \<Rightarrow> None)"

definition getTopMessages :: "(jsstring \<Rightarrow> jsstring) \<Rightarrow> Message list \<Rightarrow> ChartData" where
  "getTopMessages U messages =
     (let filteredMessages = filterMessages U messages;
          messageCounts = foldl countMessage [] filteredMessages;
          sortedMessages = slice (sortBy byCountDescending (objectEntries messageCounts)) 0 (Some 7)
      in \<lparr>labels = map fst sortedMessages, datasets = [map snd sortedMessages]\<rparr>)"

text \<open>
  The description of the result that \<open>getTopMessages\<close> is compared with. The elements of
  a list in the order of their first occurrence; and, for the contents \<open>cs\<close> of the
  filtered messages, the 7 most frequent ones: the distinct contents in the enumeration
  order of the properties, stable-sorted by descending number of occurrences.
\<close>

definition firstOccurrences :: "'a list \<Rightarrow> 'a list" where
  "firstOccurrences xs = rev (remdups (rev xs))"

definition topContents :: "jsstring list \<Rightarrow> jsstring list" where
  "topContents cs =
     take 7 (sort_key (\<lambda>k. - int (count_list cs k)) (propertyOrder (firstOccurrences cs)))"

section \<open>handleFileUpload\<close>

text \<open>
  The state of the component is \<open>data\<close>: \<open>null\<close> (\<open>None\<close>) or an object from sender
  name to that sender's messages.
\<close>

type_synonym UserMessages = "Message list object"

text \<open>
  What the handler reads. A record of the array is read at the type the code declares
  for it (\<open>json.messages as Message[]\<close>): each field is absent or has the declared
  type; an element of the array may also be \<open>null\<close>. \<open>NoMessages\<close> is a parsed
  document on which \<open>json.messages.forEach\<close> raises a TypeError: the document is
  \<open>null\<close>, or has no field \<open>messages\<close>, or the field is not an array.
  \<open>Malformed\<close> is a text on which \<open>JSON.parse\<close> raises a SyntaxError.
\<close>

record RawMessage =
  raw_sender_name :: "jsstring option"
  raw_content :: "jsstring option"
  raw_timestamp_ms :: "int option"

datatype element = NullElement | Record RawMessage

datatype messagesField = NoMessages | Messages "element list"

datatype parsed = Malformed | Document messagesField

datatype upload = NoFile | File parsed

text \<open>The two calls of \<open>console.error\<close>, and the exception of the loop.\<close>

datatype logged = ParsingError | DecodingError

datatype exn = TypeError

text \<open>\<open>msg.content || ""\<close>: an absent field and the empty string both give the empty string.\<close>

definition orEmpty :: "jsstring option \<Rightarrow> jsstring" where
  "orEmpty v = (case v of None \<Rightarrow> [] | Some s \<Rightarrow> s)"

text \<open>
  The inner \<open>try\<close> block for one record; \<open>None\<close> is an exception, which the inner
  \<open>catch\<close> logs. \<open>decode\<close> is \<open>utf8.decode\<close> (\<open>None\<close> when it throws). Under an
  inherited name \<open>userMessages[name]\<close> is truthy, so no array is created, and the member
  found there has no \<open>push\<close>: the call raises a TypeError.
\<close>

definition incorporate ::
  "(jsstring \<Rightarrow> jsstring option) \<Rightarrow> UserMessages \<Rightarrow> RawMessage \<Rightarrow> UserMessages option" where
  "incorporate decode userMessages msg =
     (case decode (orEmpty (raw_content msg)) of
        None \<Rightarrow> None
      | Some decodedContent \<Rightarrow>
          (case decode (orEmpty (raw_sender_name msg)) of
             None \<Rightarrow> None
           | Some decodedSenderName \<Rightarrow>
               (let created =
                      (if hasOwnProperty userMessages decodedSenderName \<or> inherited decodedSenderName
                       then userMessages
                       else setOwn userMessages decodedSenderName [])
                in case getOwn created decodedSenderName of
                     None \<Rightarrow> None
                   | Some msgs \<Rightarrow>
                       Some (setOwn created decodedSenderName
                          (msgs @ [\<lparr>sender_name = decodedSenderName, content = decodedContent,
                                    timestamp_ms = raw_timestamp_ms msg\<rparr>])))))"

text \<open>
  \<open>messages.forEach\<close>: the object built so far, or the TypeError that reading a field
  of \<open>null\<close> raises outside the inner \<open>try\<close>, together with what was logged.
\<close>

fun forEachMessage ::
  "(jsstring \<Rightarrow> jsstring option) \<Rightarrow> element list \<Rightarrow> UserMessages \<Rightarrow> (exn + UserMessages) \<times> logged list"
  where
  "forEachMessage decode [] userMessages = (Inr userMessages, [])"
| "forEachMessage decode (NullElement # rest) userMessages = (Inl TypeError, [])"
| "forEachMessage decode (Record msg # rest) userMessages =
     (case incorporate decode userMessages msg of
        Some userMessages' \<Rightarrow> forEachMessage decode rest userMessages'
      | None \<Rightarrow>
          (case forEachMessage decode rest userMessages of
             (r, log) \<Rightarrow> (r, DecodingError # log)))"

text \<open>
  \<open>reader.onload\<close>: the new value of \<open>data\<close> and what was logged. \<open>setData\<close> is the
  last statement of the outer \<open>try\<close>; the outer \<open>catch\<close> only logs.
\<close>

definition onload ::
  "(jsstring \<Rightarrow> jsstring option) \<Rightarrow> parsed \<Rightarrow> UserMessages option
     \<Rightarrow> UserMessages option \<times> logged list" where
  "onload decode p data =
     (case p of
        Malformed \<Rightarrow> (data, [ParsingError])
      | Document NoMessages \<Rightarrow> (data, [ParsingError])
      | Document (Messages messages) \<Rightarrow>
          (case forEachMessage decode messages [] of
             (Inl e, log) \<Rightarrow> (data, log @ [ParsingError])
           | (Inr userMessages, log) \<Rightarrow> (Some userMessages, log)))"

definition handleFileUpload ::
  "(jsstring \<Rightarrow> jsstring option) \<Rightarrow> upload \<Rightarrow> UserMessages option
     \<Rightarrow> UserMessages option \<times> logged list" where
  "handleFileUpload decode event data =
     (case event of NoFile \<Rightarrow> (data, []) | File p \<Rightarrow> onload decode p data)"

text \<open>The decoding of the content or of the sender name of a record throws.\<close>

definition decodeFails :: "(jsstring \<Rightarrow> jsstring option) \<Rightarrow> RawMessage \<Rightarrow> bool" where
  "decodeFails decode r =
     (decode (orEmpty (raw_content r)) = None \<or> decode (orEmpty (raw_sender_name r)) = None)"

text \<open>
  The description of the installed object that the loop is compared with. The message
  that a record contributes: none when the decoding of its content or sender name
  throws, or when the decoded sender name is an inherited name. The messages of an
  upload, in source order. And an object that holds, under each sender name of a list of
  messages, the messages of that sender, in the order of the list.
\<close>

definition ingestedMessage :: "(jsstring \<Rightarrow> jsstring option) \<Rightarrow> RawMessage \<Rightarrow> Message option" where
  "ingestedMessage decode r =
     (case decode (orEmpty (raw_content r)) of
        None \<Rightarrow> None
      | Some c \<Rightarrow>
          (case decode (orEmpty (raw_sender_name r)) of
             None \<Rightarrow> None
           | Some n \<Rightarrow>
               if inherited n then None
               else Some \<lparr>sender_name = n, content = c, timestamp_ms = raw_timestamp_ms r\<rparr>))"

fun ingestedMessages :: "(jsstring \<Rightarrow> jsstring option) \<Rightarrow> element list \<Rightarrow> Message list" where
  "ingestedMessages decode [] = []"
| "ingestedMessages decode (NullElement # rest) = ingestedMessages decode rest"
| "ingestedMessages decode (Record r # rest) =
     (case ingestedMessage decode r of
        None \<Rightarrow> ingestedMessages decode rest
      | Some m \<Rightarrow> m # ingestedMessages decode rest)"

definition grouped :: "UserMessages \<Rightarrow> Message list \<Rightarrow> bool" where
  "grouped um L =
     (distinct (map fst um)
      \<and> list_all (\<lambda>e. \<not> inherited (fst e) \<and> snd e = filter (\<lambda>m. sender_name m = fst e) L) um
      \<and> set (map fst um) = set (map sender_name L))"

text \<open>
  Modelled from the spec: \<open>utf8.decode\<close> of the package \<open>utf8\<close>, which is not under
  src/. The spec: it "reinterprets each character's code point as a raw byte and
  re-decodes the byte sequence as UTF-8"; a decode failure is an "invalid byte
  sequence". \<open>None\<close> is the failure. A code unit above 255 is no byte, and the spec does
  not say what happens to it: the model fails there. The theorems on the handler hold
  for every decoder; this one is the decoder of their examples.
\<close>

function utf8_decode :: "jsstring \<Rightarrow> jsstring option" where
  "utf8_decode [] = Some []"
| "utf8_decode (b # s) =
     (if b < 128 then map_option (Cons b) (utf8_decode s)
      else if 255 < b then None
      else
        (let n = leadingOnes b
         in if n = 1 \<or> 4 < n \<or> length s < n - 1 then None
            else
              (case utf8CodePoint (b # take (n - 1) s) of
                 None \<Rightarrow> None
               | Some cp \<Rightarrow> map_option (append (utf16Encode cp)) (utf8_decode (drop (n - 1) s)))))"
  by pat_completeness auto
termination
  by (relation "measure length") auto

section \<open>getChartData and allMessages\<close>

text \<open>
  The callback of \<open>userLabels.map\<close>, \<open>data[user].length\<close>, applied along the keys:
  reading \<open>length\<close> of \<open>undefined\<close> would raise a TypeError (\<open>None\<close>).
\<close>

fun countUsers :: "UserMessages \<Rightarrow> jsstring list \<Rightarrow> (jsstring \<times> nat) list option" where
  "countUsers d [] = Some []"
| "countUsers d (user # rest) =
     (case getOwn d user of
        None \<Rightarrow> None
      | Some msgs \<Rightarrow> map_option (Cons (user, length msgs)) (countUsers d rest))"

definition getChartData :: "UserMessages option \<Rightarrow> exn + ChartData" where
  "getChartData data =
     (case data of
        None \<Rightarrow> Inr \<lparr>labels = [], datasets = []\<rparr>
      | Some d \<Rightarrow>
          (let userLabels = objectKeys d
           in case countUsers d userLabels of
                None \<Rightarrow> Inl TypeError
              | Some messageCounts \<Rightarrow>
                  (let topUsers =
                         slice (sortBy (\<lambda>a b. Some (int (snd b) - int (snd a))) messageCounts)
                           0 (Some 7)
                   in Inr \<lparr>labels = map fst topUsers,
                           datasets = [map (\<lambda>u. Number (snd u)) topUsers]\<rparr>)))"

definition allMessages :: "UserMessages option \<Rightarrow> Message list" where
  "allMessages data =
     (case data of
        None \<Rightarrow> []
      | Some d \<Rightarrow>
          map (\<lambda>msg. msg\<lparr>content := decodeUnicode (content msg)\<rparr>) (concat (objectValues d)))"

section \<open>Properties of filterMessages\<close>

text \<open>
  C1. For every message \<open>m\<close>, \<open>filterMessages [m]\<close> is empty exactly when the trimmed
  content is empty, or its lowercase form contains one of "liked a message",
  "attachment", "like", or the trimmed content has a code unit outside 7-bit ASCII;
  otherwise the result has exactly one element (the message with its content trimmed).
\<close>

theorem filterMessages_singleton:
  "(filterMessages U [m] = []) =
     (trim (content m) = []
      \<or> includesStr (toLowerCase U (trim (content m))) (str ''liked a message'')
      \<or> includesStr (toLowerCase U (trim (content m))) (str ''attachment'')
      \<or> includesStr (toLowerCase U (trim (content m))) (str ''like'')
      \<or> hasNonAscii (trim (content m)))
   \<and> (if filterMessages U [m] = [] then True
      else length (filterMessages U [m]) = 1
         \<and> filterMessages U [m] = [m\<lparr>content := trim (content m)\<rparr>])"
  by (simp add: filterMessages_def keepMessage_def)

theorem filterMessages_singleton_witness:
  "filterMessages (\<lambda>s. s)
     [\<lparr>sender_name = str ''You'', content = str '' hi '', timestamp_ms = Some 1000\<rparr>]
   = [\<lparr>sender_name = str ''You'', content = str ''hi'', timestamp_ms = Some 1000\<rparr>]
   \<and> filterMessages (\<lambda>s. s)
     [\<lparr>sender_name = str ''Bob'', content = str ''Liked a message'', timestamp_ms = Some 2000\<rparr>]
   = []"
  using filterMessages_singleton [of "\<lambda>s. s"
      "\<lparr>sender_name = str ''You'', content = str '' hi '', timestamp_ms = Some 1000\<rparr>"]
    filterMessages_singleton [of "\<lambda>s. s"
      "\<lparr>sender_name = str ''Bob'', content = str ''Liked a message'', timestamp_ms = Some 2000\<rparr>"]
  by (simp add: filterMessages_def keepMessage_def str_def trim_def isWhiteSpace_def
      toLowerCase_def isAscii_def lowerAscii_def startsWith_def hasNonAscii_def)

section \<open>Properties of the temporal selection\<close>

lemma set_insertBy: "set (insertBy cmp x ys) = insert x (set ys)"
  by (induction ys) auto

lemma set_sortBy: "set (sortBy cmp xs) = set xs"
  by (induction xs) (simp_all add: sortBy_def set_insertBy)

lemma insertBy_insort_key:
  assumes "\<And>y. y \<in> set ys \<Longrightarrow> cmp x y = Some (f x - f y)"
  shows "insertBy cmp x ys = insort_key f x ys"
  using assms by (induction ys) (simp_all add: sortCompare_def)

text \<open>
  Where the comparator is the difference of an integer key, the sort is the stable sort
  by that key.
\<close>

lemma sortBy_sort_key:
  assumes "\<And>a b. a \<in> set xs \<Longrightarrow> b \<in> set xs \<Longrightarrow> cmp a b = Some (f a - f b)"
  shows "sortBy cmp xs = sort_key f xs"
  using assms
proof (induction xs)
  case Nil
  then show ?case by (simp add: sortBy_def)
next
  case (Cons x xs)
  have tl: "sortBy cmp xs = sort_key f xs"
    using Cons by simp
  have "insertBy cmp x (sortBy cmp xs) = insort_key f x (sortBy cmp xs)"
    by (rule insertBy_insort_key) (simp add: set_sortBy Cons.prems)
  then show ?case
    by (simp add: sortBy_def tl [unfolded sortBy_def] sort_key_def)
qed

text \<open>
  What \<open>getSortedMessagesAscending\<close> computes: the messages with a truthy timestamp
  (present and not 0), stable-sorted by timestamp.
\<close>

lemma getSortedMessagesAscending_sort_key:
  "getSortedMessagesAscending messages =
     sort_key (\<lambda>m. the (timestamp_ms m)) (filter (\<lambda>m. truthyNumber (timestamp_ms m)) messages)"
  unfolding getSortedMessagesAscending_def
  by (rule sortBy_sort_key) (auto simp: truthyNumber_def subNumber_def split: option.splits)

lemma getEarliestMessages_take:
  "getEarliestMessages messages (int n) = take n (getSortedMessagesAscending messages)"
  by (simp add: getEarliestMessages_def slice_def relativeIndex_def Let_def min_def)

lemma getLatestMessages_drop:
  assumes "0 < n"
  shows "getLatestMessages messages (int n) =
     drop (length (getSortedMessagesAscending messages) - n) (getSortedMessagesAscending messages)"
proof -
  let ?S = "getSortedMessagesAscending messages"
  have k: "nat (relativeIndex (int (length ?S)) (- int n)) = length ?S - n"
    using assms unfolding relativeIndex_def max_def by auto
  have "take (nat (int (length ?S) - relativeIndex (int (length ?S)) (- int n)))
          (drop (length ?S - n) ?S) = drop (length ?S - n) ?S"
    using assms unfolding relativeIndex_def max_def by auto
  then show ?thesis
    by (simp add: getLatestMessages_def slice_def Let_def k)
qed

lemma getLatestMessages_zero:
  "getLatestMessages messages 0 = getSortedMessagesAscending messages"
  by (simp add: getLatestMessages_def slice_def relativeIndex_def Let_def)

text \<open>
  The sizes of the selections: for a count of at least 1, each has that many messages,
  or all the sorted ones when there are fewer.
\<close>

lemma length_getSortedMessagesAscending:
  "length (getSortedMessagesAscending messages) =
     length (filter (\<lambda>m. truthyNumber (timestamp_ms m)) messages)"
  by (simp add: getSortedMessagesAscending_sort_key)

lemma length_getEarliestMessages:
  "length (getEarliestMessages messages (int n)) =
     min n (length (getSortedMessagesAscending messages))"
  by (simp add: getEarliestMessages_take min.commute)

lemma length_getLatestMessages:
  assumes "0 < n"
  shows "length (getLatestMessages messages (int n)) =
     min n (length (getSortedMessagesAscending messages))"
  using assms by (simp add: getLatestMessages_drop)

text \<open>
  C2. The claim: \<open>getSortedMessagesAscending\<close> drops exactly the messages whose
  \<open>timestamp_ms\<close> is absent, and no message with a present \<open>timestamp_ms\<close>, 0
  included. The code tests the field for truthiness, so a message whose timestamp is
  present and equal to 0 is dropped as well: evaluated here on one such message.
\<close>

theorem getSortedMessagesAscending_drops_zero:
  "getSortedMessagesAscending
     [\<lparr>sender_name = str ''You'', content = str ''hi'', timestamp_ms = Some 0\<rparr>] = []"
  by (simp add: getSortedMessagesAscending_def truthyNumber_def sortBy_def)

text \<open>
  C3. The claim: for every natural number \<open>n\<close>, \<open>getLatestMessages messages n\<close>
  returns at most \<open>n\<close> elements. The code computes \<open>slice(-count)\<close>, which for
  \<open>count = 0\<close> is \<open>slice(0)\<close>, the whole array: with one timestamped message and
  \<open>n = 0\<close> the result has one element.
\<close>

theorem getLatestMessages_zero_length:
  "length (getLatestMessages
     [\<lparr>sender_name = str ''You'', content = str ''hi'', timestamp_ms = Some 1000\<rparr>] 0) = 1"
  by (simp add: getLatestMessages_def getSortedMessagesAscending_def truthyNumber_def
      sortBy_def slice_def relativeIndex_def)

text \<open>
  C4. The claim: \<open>getLatestMessages messages n\<close> is the last \<open>n\<close> elements of the
  sorted timestamped messages. For \<open>n = 0\<close> the last 0 elements are the empty
  sequence, and the code returns the whole sorted sequence: evaluated here on two
  messages.
\<close>

theorem getLatestMessages_zero_returns_all:
  "getLatestMessages
     [\<lparr>sender_name = str ''Bob'', content = str ''yo'', timestamp_ms = Some 2000\<rparr>,
      \<lparr>sender_name = str ''You'', content = str ''hi'', timestamp_ms = Some 1000\<rparr>] 0
   = [\<lparr>sender_name = str ''You'', content = str ''hi'', timestamp_ms = Some 1000\<rparr>,
      \<lparr>sender_name = str ''Bob'', content = str ''yo'', timestamp_ms = Some 2000\<rparr>]"
  by (simp add: getLatestMessages_def getSortedMessagesAscending_def truthyNumber_def
      subNumber_def sortBy_def sortCompare_def slice_def relativeIndex_def)

section \<open>Properties of decodeUnicode\<close>

lemma parseHexOctet_u: "parseHexOctet (117 # r) = None"
  by (cases r) (simp_all add: parseHexOctet_def isHexDigit_def)

text \<open>A percent sign followed by the letter u is not an escape: the decoder throws.\<close>

lemma decodeURIComponent_percent_u: "decodeURIComponent (37 # 117 # r) = None"
  by (simp add: parseHexOctet_u)

lemma parseHexOctet_percent: "parseHexOctet (37 # r) = None"
  by (cases r) (simp_all add: parseHexOctet_def isHexDigit_def)

lemma parseHexOctet_Cons_percent: "parseHexOctet (a # 37 # r) = None"
  by (simp add: parseHexOctet_def isHexDigit_def)

lemma parseHexOctet_single: "parseHexOctet [a] = None"
  by (simp add: parseHexOctet_def)

text \<open>Where no two hexadecimal digits start a string, none start its rewriting.\<close>

lemma parseHexOctet_replaceEscapes:
  assumes "parseHexOctet s = None"
  shows "parseHexOctet (replaceEscapes s) = None"
proof (cases s)
  case Nil
  then show ?thesis by (simp add: parseHexOctet_def)
next
  case s: (Cons a s')
  show ?thesis
  proof (cases "escapeAt (a # s')")
    case True
    with s show ?thesis by (simp add: parseHexOctet_percent)
  next
    case False
    note na = this
    show ?thesis
    proof (cases s')
      case Nil
      with s na show ?thesis by (simp add: parseHexOctet_single)
    next
      case s': (Cons b s'')
      show ?thesis
      proof (cases "escapeAt (b # s'')")
        case True
        with s s' na show ?thesis by (simp add: parseHexOctet_Cons_percent)
      next
        case False
        with s s' na assms show ?thesis by (simp add: parseHexOctet_def)
      qed
    qed
  qed
qed

lemma decodeURIComponent_no_percent_escape:
  assumes "\<not> hasPercentEscape s"
  shows "decodeURIComponent (replaceEscapes s) = None
       \<or> decodeURIComponent (replaceEscapes s) = Some s"
  using assms
proof (induction s rule: replaceEscapes.induct)
  case 1
  then show ?case by simp
next
  case (2 c s)
  show ?case
  proof (cases "escapeAt (c # s)")
    case True
    then show ?thesis
      by (simp add: decodeURIComponent_percent_u del: decodeURIComponent.simps)
  next
    case False
    show ?thesis
    proof (cases "c = 37")
      case True
      with 2 have "parseHexOctet s = None" by simp
      then have "parseHexOctet (replaceEscapes s) = None"
        by (rule parseHexOctet_replaceEscapes)
      with True False show ?thesis by simp
    next
      case c: False
      with 2 False show ?thesis by auto
    qed
  qed
qed

lemma decodeUnicode_no_percent_escape:
  assumes "\<not> hasPercentEscape s"
  shows "decodeUnicode s = s"
  using decodeURIComponent_no_percent_escape [OF assms]
  by (auto simp: decodeUnicode_def)

lemma decodesPlain_no_backslash: "decodesPlain s \<Longrightarrow> 92 \<notin> set s"
  by (induction s) auto

lemma decodesPlain_tl: "decodesPlain s \<Longrightarrow> decodesPlain (tl s)"
  by (cases s) simp_all

lemma decodesPlain_drop: "decodesPlain s \<Longrightarrow> decodesPlain (drop n s)"
proof (induction n arbitrary: s)
  case 0
  then show ?case by simp
next
  case (Suc n)
  then show ?case by (cases s) simp_all
qed

lemma no_backslash_no_escape: "92 \<notin> set s \<Longrightarrow> \<not> hasEscape s"
  by (induction s) (auto simp: escapeAt_def)

lemma no_percent_no_percent_escape: "37 \<notin> set s \<Longrightarrow> \<not> hasPercentEscape s"
  by (induction s) auto

lemma replaceEscapes_no_escape: "\<not> hasEscape s \<Longrightarrow> replaceEscapes s = s"
  by (induction s rule: replaceEscapes.induct) auto

lemma utf8CodePoint_above_ascii: "utf8CodePoint octets = Some cp \<Longrightarrow> 128 \<le> cp"
  by (auto simp: utf8CodePoint_def Let_def split: list.splits if_splits)

lemma utf16Encode_above_ascii: "128 \<le> cp \<Longrightarrow> u \<in> set (utf16Encode cp) \<Longrightarrow> 128 \<le> u"
  by (auto simp: utf16Encode_def split: if_splits)

text \<open>
  What the decoder returns for such a string has no percent sign and no backslash: a
  code unit of the result is one of the string, or the octet of an escape, or comes from
  a code point above ASCII.
\<close>

lemma decodeURIComponent_plain:
  "decodesPlain s \<Longrightarrow> decodeURIComponent s = Some t \<Longrightarrow> 37 \<notin> set t \<and> 92 \<notin> set t"
proof (induction s arbitrary: t rule: decodeURIComponent.induct)
  case 1
  then show ?case by simp
next
  case (2 c s)
  show ?case
  proof (cases "c = 37")
    case False
    with "2.prems" obtain t' where t: "t = c # t'" and d: "decodeURIComponent s = Some t'"
      by auto
    from "2.prems" have "decodesPlain s" and "c \<noteq> 92" by simp_all
    with "2.IH"(1) [OF False _ d] False t show ?thesis by simp
  next
    case True
    with "2.prems" obtain B where B: "parseHexOctet s = Some B"
      by (auto split: option.splits)
    from "2.prems" True B have Bok: "B \<noteq> 37" "B \<noteq> 92" and plain: "decodesPlain s"
      by auto
    show ?thesis
    proof (cases "B < 128")
      case small: True
      with "2.prems" True B obtain t' where t: "t = B # t'"
        and d: "decodeURIComponent (drop 2 s) = Some t'"
        by auto
      have "37 \<notin> set t' \<and> 92 \<notin> set t'"
        using "2.IH"(2) [OF _ B small _ d] True decodesPlain_drop [OF plain] by simp
      with t Bok show ?thesis by simp
    next
      case big: False
      let ?n = "leadingOnes B"
      from "2.prems" True B big have n: "\<not> (?n = 1 \<or> 4 < ?n)"
        by (auto simp: Let_def split: if_splits)
      with "2.prems" True B big obtain octets where
        o: "continuationOctets (?n - 1) (drop 2 s) = Some octets"
        by (auto simp: Let_def split: option.splits)
      with "2.prems" True B big n obtain cp where
        cp: "utf8CodePoint (B # octets) = Some cp"
        by (auto simp: Let_def split: option.splits)
      with "2.prems" True B big n o obtain t' where t: "t = utf16Encode cp @ t'"
        and d: "decodeURIComponent (drop (2 + 3 * (?n - 1)) s) = Some t'"
        by (auto simp: Let_def)
      have "37 \<notin> set t' \<and> 92 \<notin> set t'"
        using "2.IH"(3) [OF _ B big refl n o cp _ d] True decodesPlain_drop [OF plain]
        by simp
      moreover have "\<forall>u \<in> set (utf16Encode cp). 128 \<le> u"
        using utf8CodePoint_above_ascii [OF cp] utf16Encode_above_ascii by blast
      ultimately show ?thesis
        using t by auto
    qed
  qed
qed

lemma decodeUnicode_plain_idempotent:
  assumes "decodesPlain s"
  shows "decodeUnicode (decodeUnicode s) = decodeUnicode s"
proof -
  have same: "replaceEscapes s = s"
    using assms decodesPlain_no_backslash no_backslash_no_escape replaceEscapes_no_escape
    by blast
  show ?thesis
  proof (cases "decodeURIComponent s")
    case None
    with same show ?thesis by (simp add: decodeUnicode_def)
  next
    case (Some t)
    with same have t: "decodeUnicode s = t" by (simp add: decodeUnicode_def)
    from decodeURIComponent_plain [OF assms Some] have "\<not> hasPercentEscape t"
      using no_percent_no_percent_escape by blast
    then have "decodeUnicode t = t"
      by (rule decodeUnicode_no_percent_escape)
    with t show ?thesis by simp
  qed
qed

lemma parseHexOctet_Some_hex:
  "parseHexOctet s = Some B \<Longrightarrow> \<exists>a b r. s = a # b # r \<and> isHexDigit a \<and> isHexDigit b"
  by (auto simp: parseHexOctet_def split: list.splits if_splits)

text \<open>
  The escapes read after the first octet of a sequence end before a percent sign that is
  followed by the letter u.
\<close>

lemma continuationOctets_before_percent_u:
  "continuationOctets j (q @ 37 # 117 # r) = Some octs \<Longrightarrow> 3 * j \<le> length q"
proof (induction j arbitrary: q octs)
  case 0
  then show ?case by simp
next
  case (Suc j)
  from Suc.prems obtain p rest where s: "q @ 37 # 117 # r = p # rest" and p: "p = 37"
    by (auto split: list.splits if_splits)
  from Suc.prems s p obtain b where b: "parseHexOctet rest = Some b"
    by (auto split: option.splits)
  then obtain h1 h2 rest' where rest: "rest = h1 # h2 # rest'" and h: "isHexDigit h1" "isHexDigit h2"
    using parseHexOctet_Some_hex by blast
  have "\<exists>q'. q = p # h1 # h2 # q'"
  proof (cases q)
    case Nil
    with s rest h show ?thesis by (simp add: isHexDigit_def)
  next
    case (Cons a q1)
    show ?thesis
    proof (cases q1)
      case Nil
      with Cons s rest h show ?thesis by (simp add: isHexDigit_def)
    next
      case (Cons a2 q2)
      note q1 = this
      show ?thesis
      proof (cases q2)
        case Nil
        with q1 \<open>q = a # q1\<close> s rest h show ?thesis by (simp add: isHexDigit_def)
      next
        case (Cons a3 q3)
        with q1 \<open>q = a # q1\<close> s rest show ?thesis by simp
      qed
    qed
  qed
  then obtain q' where q: "q = p # h1 # h2 # q'" by blast
  with s rest have rest': "rest' = q' @ 37 # 117 # r" by simp
  from Suc.prems s p b rest obtain octs' where "continuationOctets j rest' = Some octs'"
    by (auto split: option.splits)
  then have "3 * j \<le> length q'"
    using Suc.IH rest' by blast
  with q show ?case by simp
qed

text \<open>The decoder throws on every string in which a percent sign is followed by u.\<close>

lemma decodeURIComponent_contains_percent_u:
  "decodeURIComponent (p @ 37 # 117 # r) = None"
proof (induction "length p" arbitrary: p rule: less_induct)
  case less
  show ?case
  proof (cases p)
    case Nil
    then show ?thesis by (simp add: decodeURIComponent_percent_u del: decodeURIComponent.simps)
  next
    case (Cons c p')
    show ?thesis
    proof (cases "c = 37")
      case False
      with Cons less show ?thesis by simp
    next
      case True
      let ?s = "p' @ 37 # 117 # r"
      show ?thesis
      proof (cases "parseHexOctet ?s")
        case None
        with Cons True show ?thesis by simp
      next
        case (Some B)
        then obtain h1 h2 rest where s: "?s = h1 # h2 # rest" and h: "isHexDigit h1" "isHexDigit h2"
          using parseHexOctet_Some_hex by blast
        have "\<exists>p''. p' = h1 # h2 # p''"
        proof (cases p')
          case Nil
          with s h show ?thesis by (simp add: isHexDigit_def)
        next
          case (Cons a q1)
          then show ?thesis using s h by (cases q1) (simp_all add: isHexDigit_def)
        qed
        then obtain p'' where p': "p' = h1 # h2 # p''" by blast
        then have drop2: "drop 2 ?s = p'' @ 37 # 117 # r" by simp
        have small: "decodeURIComponent (p'' @ 37 # 117 # r) = None"
          using less Cons p' by simp
        show ?thesis
        proof (cases "B < 128")
          case True
          with Cons \<open>c = 37\<close> Some drop2 small show ?thesis by simp
        next
          case False
          show ?thesis
          proof (cases "continuationOctets (leadingOnes B - 1) (drop 2 ?s)")
            case None
            with Cons \<open>c = 37\<close> Some False show ?thesis by (simp add: Let_def)
          next
            case (Some octs)
            then have fit: "3 * (leadingOnes B - 1) \<le> length p''"
              using drop2 continuationOctets_before_percent_u by metis
            then have "drop (2 + 3 * (leadingOnes B - 1)) ?s
                = drop (3 * (leadingOnes B - 1)) p'' @ 37 # 117 # r"
              using p' by simp
            moreover have "decodeURIComponent (drop (3 * (leadingOnes B - 1)) p'' @ 37 # 117 # r) = None"
              using less Cons p' by simp
            ultimately show ?thesis
              using Cons \<open>c = 37\<close> \<open>parseHexOctet ?s = Some B\<close> False
              by (simp add: Let_def split: option.splits)
          qed
        qed
      qed
    qed
  qed
qed

lemma replaceEscapes_hasEscape:
  "hasEscape s \<Longrightarrow> \<exists>p r. replaceEscapes s = p @ 37 # 117 # r"
proof (induction s rule: replaceEscapes.induct)
  case 1
  then show ?case by simp
next
  case (2 c s)
  show ?case
  proof (cases "escapeAt (c # s)")
    case True
    then have "replaceEscapes (c # s) = [] @ 37 # 117 # (take 4 (drop 1 s) @ replaceEscapes (drop 5 s))"
      by simp
    then show ?thesis by blast
  next
    case False
    with 2 obtain p r where "replaceEscapes s = p @ 37 # 117 # r" by auto
    with False have "replaceEscapes (c # s) = (c # p) @ 37 # 117 # r" by simp
    then show ?thesis by blast
  qed
qed

text \<open>
  No escape is ever decoded: a string that contains one is returned as it is.
\<close>

lemma decodeUnicode_escape_unchanged:
  assumes "hasEscape s"
  shows "decodeUnicode s = s"
proof -
  from replaceEscapes_hasEscape [OF assms] obtain p r
    where "replaceEscapes s = p @ 37 # 117 # r" by blast
  then show ?thesis
    by (simp add: decodeUnicode_def decodeURIComponent_contains_percent_u)
qed

text \<open>
  C9. The claim: \<open>decodeUnicode\<close> replaces every four-hex-digit backslash-u escape by
  its character. The code rewrites the escape to \<open>%uXXXX\<close> and calls
  \<open>decodeURIComponent\<close>, which knows no \<open>%u\<close> escape and throws, so the
  \<open>catch\<close> returns the argument: on the escape of the letter A (a backslash, the
  letter u and the digits 0041) the result is the same six code units, not \<open>[65]\<close>.
\<close>

theorem decodeUnicode_keeps_escape:
  "decodeUnicode [92, 117, 48, 48, 52, 49] = [92, 117, 48, 48, 52, 49]"
  by (simp add: decodeUnicode_def escapeAt_def isHexDigit_def parseHexOctet_def)

text \<open>
  C10, as amended. An escape sequence is a four-hex-digit backslash-u escape or a percent
  escape (a percent sign followed by two hexadecimal digits). \<open>decodeUnicode\<close> changes
  no string that contains no escape sequence. Applying it twice gives the same as applying
  it once whenever the first result contains no escape sequence, and also for every
  string without a backslash in which no percent escape encodes a percent sign or a
  backslash. Nothing is stated about a string that contains a backslash-u escape.
\<close>

theorem decodeUnicode_idempotent_without_escapes:
  "(\<not> hasEscape s \<and> \<not> hasPercentEscape s \<longrightarrow> decodeUnicode s = s)
   \<and> (\<not> hasEscape (decodeUnicode s) \<and> \<not> hasPercentEscape (decodeUnicode s) \<longrightarrow>
        decodeUnicode (decodeUnicode s) = decodeUnicode s)
   \<and> (decodesPlain s \<longrightarrow> decodeUnicode (decodeUnicode s) = decodeUnicode s)"
  by (simp add: decodeUnicode_no_percent_escape decodeUnicode_plain_idempotent)

theorem decodeUnicode_idempotent_without_escapes_witness:
  "\<not> hasEscape (str ''100% hi'') \<and> \<not> hasPercentEscape (str ''100% hi'')
   \<and> decodeUnicode (str ''100% hi'') = str ''100% hi''
   \<and> decodeUnicode (str ''%41'') = str ''A''
   \<and> \<not> hasEscape (decodeUnicode (str ''%41'')) \<and> \<not> hasPercentEscape (decodeUnicode (str ''%41''))
   \<and> decodeUnicode (decodeUnicode (str ''%41'')) = decodeUnicode (str ''%41'')
   \<and> decodesPlain (str ''caf%C3%A9%21'')
   \<and> decodeUnicode (str ''caf%C3%A9%21'') = str ''caf'' @ [233, 33]
   \<and> decodeUnicode (decodeUnicode (str ''caf%C3%A9%21'')) = decodeUnicode (str ''caf%C3%A9%21'')"
proof -
  have a: "\<not> hasEscape (str ''100% hi'') \<and> \<not> hasPercentEscape (str ''100% hi'')"
    by (simp add: str_def escapeAt_def parseHexOctet_def isHexDigit_def)
  have b: "decodeUnicode (str ''%41'') = str ''A''"
    by (simp add: decodeUnicode_def escapeAt_def parseHexOctet_def isHexDigit_def
        hexValue_def str_def)
  have c: "\<not> hasEscape (decodeUnicode (str ''%41'')) \<and> \<not> hasPercentEscape (decodeUnicode (str ''%41''))"
    by (simp add: b) (simp add: str_def escapeAt_def)
  have d: "decodesPlain (str ''caf%C3%A9%21'')"
    by (simp add: str_def parseHexOctet_def isHexDigit_def hexValue_def)
  have e: "decodeUnicode (str ''caf%C3%A9%21'') = str ''caf'' @ [233, 33]"
    by (simp add: decodeUnicode_def escapeAt_def parseHexOctet_def isHexDigit_def
        hexValue_def str_def leadingOnes_def utf8CodePoint_def isContinuation_def
        utf16Encode_def)
  from decodeUnicode_idempotent_without_escapes [of "str ''100% hi''"]
    decodeUnicode_idempotent_without_escapes [of "str ''%41''"]
    decodeUnicode_idempotent_without_escapes [of "str ''caf%C3%A9%21''"] a b c d e
  show ?thesis by simp
qed

text \<open>
  The claim as stated fails: the decoding of \<open>%2541\<close> is \<open>%41\<close>, whose decoding
  is the letter A.
\<close>

theorem decodeUnicode_not_idempotent:
  "decodeUnicode (decodeUnicode (str ''%2541'')) \<noteq> decodeUnicode (str ''%2541'')"
  by (simp add: decodeUnicode_def escapeAt_def parseHexOctet_def isHexDigit_def
      hexValue_def str_def)

section \<open>Properties of handleFileUpload\<close>

lemma forEachMessage_log: "set (snd (forEachMessage decode ms um)) \<subseteq> {DecodingError}"
  by (induction decode ms um rule: forEachMessage.induct) (auto split: option.splits prod.splits)

lemma forEachMessage_no_ParsingError:
  "forEachMessage decode ms um = (r, log) \<Longrightarrow> ParsingError \<notin> set log"
  using forEachMessage_log [of decode ms um] by auto

text \<open>A logged parsing error means that \<open>setData\<close> was not reached.\<close>

lemma onload_failure_cases:
  "ParsingError \<in> set (snd (onload decode p data)) \<Longrightarrow> fst (onload decode p data) = data"
  by (auto simp: onload_def dest: forEachMessage_no_ParsingError
      split: parsed.splits messagesField.splits prod.splits sum.splits)

text \<open>
  C7. If the text of the upload is not valid JSON, or the parsed document has no
  sequence of messages, the handler logs the parsing error and leaves \<open>data\<close> as it
  was. More generally, whenever the handler logs a parsing error (also after part of the
  records were processed), \<open>data\<close> is unchanged: no partial object is installed.
\<close>

theorem handleFileUpload_failure_keeps_state:
  "(p = Malformed \<or> p = Document NoMessages \<longrightarrow>
      handleFileUpload decode (File p) data = (data, [ParsingError]))
   \<and> (ParsingError \<in> set (snd (handleFileUpload decode (File p) data)) \<longrightarrow>
      fst (handleFileUpload decode (File p) data) = data)"
  using onload_failure_cases [of decode p data]
  by (auto simp: handleFileUpload_def onload_def)

theorem handleFileUpload_failure_keeps_state_witness:
  "handleFileUpload utf8_decode (File Malformed)
      (Some [(str ''You'', [\<lparr>sender_name = str ''You'', content = str ''hi'', timestamp_ms = Some 1000\<rparr>])])
    = (Some [(str ''You'', [\<lparr>sender_name = str ''You'', content = str ''hi'', timestamp_ms = Some 1000\<rparr>])],
       [ParsingError])
   \<and> handleFileUpload utf8_decode (File (Document NoMessages)) None = (None, [ParsingError])
   \<and> ParsingError \<in> set (snd (handleFileUpload utf8_decode
        (File (Document (Messages
           [Record \<lparr>raw_sender_name = Some (str ''Bob''), raw_content = Some (str ''yo''),
                    raw_timestamp_ms = Some 2000\<rparr>,
            NullElement])))
        (Some [])))
   \<and> fst (handleFileUpload utf8_decode
        (File (Document (Messages
           [Record \<lparr>raw_sender_name = Some (str ''Bob''), raw_content = Some (str ''yo''),
                    raw_timestamp_ms = Some 2000\<rparr>,
            NullElement])))
        (Some [])) = Some []"
proof -
  let ?doc = "Document (Messages
           [Record \<lparr>raw_sender_name = Some (str ''Bob''), raw_content = Some (str ''yo''),
                    raw_timestamp_ms = Some 2000\<rparr>,
            NullElement])"
  have logged: "ParsingError \<in> set (snd (handleFileUpload utf8_decode (File ?doc) (Some [])))"
    by (simp add: handleFileUpload_def onload_def incorporate_def orEmpty_def str_def
        hasOwnProperty_def inherited_def objectPrototypeNames_def setOwn_def getOwn_def)
  from handleFileUpload_failure_keeps_state [of Malformed utf8_decode]
    handleFileUpload_failure_keeps_state [of "Document NoMessages" utf8_decode None]
    handleFileUpload_failure_keeps_state [of ?doc utf8_decode "Some []"] logged
  show ?thesis by simp
qed

lemma incorporate_decode_fails:
  "decodeFails decode r \<Longrightarrow> incorporate decode um r = None"
  by (auto simp: incorporate_def decodeFails_def split: option.splits)

lemma fst_forEachMessage_Record:
  "fst (forEachMessage decode (Record msg # rest) um) =
     (case incorporate decode um msg of
        Some um' \<Rightarrow> fst (forEachMessage decode rest um')
      | None \<Rightarrow> fst (forEachMessage decode rest um))"
  by (simp split: option.splits prod.splits)

lemma snd_forEachMessage_Record:
  "snd (forEachMessage decode (Record msg # rest) um) =
     (case incorporate decode um msg of
        Some um' \<Rightarrow> snd (forEachMessage decode rest um')
      | None \<Rightarrow> DecodingError # snd (forEachMessage decode rest um))"
  by (simp split: option.splits prod.splits)

text \<open>The loop builds the same object with and without a record that fails to decode.\<close>

lemma forEachMessage_skip:
  assumes "decodeFails decode r"
  shows "fst (forEachMessage decode (before @ Record r # after) um) =
         fst (forEachMessage decode (before @ after) um)"
proof (induction before arbitrary: um)
  case Nil
  then show ?case
    by (simp add: fst_forEachMessage_Record incorporate_decode_fails [OF assms]
        del: forEachMessage.simps)
next
  case (Cons e before)
  show ?case
  proof (cases e)
    case NullElement
    then show ?thesis by simp
  next
    case (Record msg)
    then show ?thesis
      using Cons.IH
      by (simp add: fst_forEachMessage_Record del: forEachMessage.simps split: option.splits)
  qed
qed

lemma forEachMessage_completes:
  "NullElement \<notin> set ms \<Longrightarrow> \<exists>um'. fst (forEachMessage decode ms um) = Inr um'"
proof (induction ms arbitrary: um)
  case Nil
  then show ?case by simp
next
  case (Cons e ms)
  then show ?case
    by (cases e)
      (simp_all add: fst_forEachMessage_Record del: forEachMessage.simps split: option.splits)
qed

lemma forEachMessage_logs_failure:
  assumes "decodeFails decode r" and "NullElement \<notin> set before"
  shows "DecodingError \<in> set (snd (forEachMessage decode (before @ Record r # after) um))"
  using assms(2)
proof (induction before arbitrary: um)
  case Nil
  then show ?case
    by (simp add: snd_forEachMessage_Record incorporate_decode_fails [OF assms(1)]
        del: forEachMessage.simps)
next
  case (Cons e before)
  then show ?case
    by (cases e)
      (simp_all add: snd_forEachMessage_Record del: forEachMessage.simps split: option.splits)
qed

text \<open>
  C8, as amended. When the decoding of a record's content or sender name throws, the
  record is skipped: the upload installs the object that the same upload without the
  record installs. The failure does not abort the batch: when no element of the array is
  \<open>null\<close>, an object is installed and the decoding error is logged.
\<close>

theorem handleFileUpload_skips_undecodable:
  assumes "decodeFails decode r"
  shows "fst (handleFileUpload decode (File (Document (Messages (before @ Record r # after)))) data)
       = fst (handleFileUpload decode (File (Document (Messages (before @ after)))) data)
     \<and> (NullElement \<notin> set (before @ after) \<longrightarrow>
          (\<exists>userMessages. fst (handleFileUpload decode
              (File (Document (Messages (before @ Record r # after)))) data) = Some userMessages)
          \<and> DecodingError \<in> set (snd (handleFileUpload decode
              (File (Document (Messages (before @ Record r # after)))) data)))"
proof -
  let ?with = "forEachMessage decode (before @ Record r # after) []"
  let ?without = "forEachMessage decode (before @ after) []"
  have same: "fst ?with = fst ?without"
    by (rule forEachMessage_skip [OF assms])
  have fst_onload: "fst (onload decode (Document (Messages ms)) data) =
      (case fst (forEachMessage decode ms []) of Inl e \<Rightarrow> data | Inr um \<Rightarrow> Some um)" for ms
    by (simp add: onload_def split: prod.splits sum.splits)
  have snd_onload: "set (snd (forEachMessage decode ms [])) \<subseteq>
      set (snd (onload decode (Document (Messages ms)) data))" for ms
    by (auto simp: onload_def split: prod.splits sum.splits)
  have one: "fst (handleFileUpload decode (File (Document (Messages (before @ Record r # after)))) data)
       = fst (handleFileUpload decode (File (Document (Messages (before @ after)))) data)"
    by (simp add: handleFileUpload_def fst_onload same)
  have two: "\<exists>userMessages. fst (handleFileUpload decode
              (File (Document (Messages (before @ Record r # after)))) data) = Some userMessages"
    if "NullElement \<notin> set (before @ after)"
  proof -
    from that obtain um' where "fst ?without = Inr um'"
      using forEachMessage_completes by blast
    then show ?thesis
      by (simp add: handleFileUpload_def fst_onload same)
  qed
  have three: "DecodingError \<in> set (snd (handleFileUpload decode
              (File (Document (Messages (before @ Record r # after)))) data))"
    if "NullElement \<notin> set (before @ after)"
  proof -
    from that have "NullElement \<notin> set before" by simp
    then have "DecodingError \<in> set (snd ?with)"
      by (rule forEachMessage_logs_failure [OF assms])
    then show ?thesis
      using snd_onload [of "before @ Record r # after"] by (auto simp: handleFileUpload_def)
  qed
  from one two three show ?thesis by blast
qed

theorem handleFileUpload_skips_undecodable_witness:
  "decodeFails utf8_decode
     \<lparr>raw_sender_name = Some (str ''Ann''), raw_content = Some [255], raw_timestamp_ms = Some 1500\<rparr>
   \<and> fst (handleFileUpload utf8_decode (File (Document (Messages
        ([Record \<lparr>raw_sender_name = Some (str ''You''), raw_content = Some (str ''hi''),
                  raw_timestamp_ms = Some 1000\<rparr>]
         @ Record \<lparr>raw_sender_name = Some (str ''Ann''), raw_content = Some [255],
                    raw_timestamp_ms = Some 1500\<rparr>
         # [Record \<lparr>raw_sender_name = Some (str ''Bob''), raw_content = Some (str ''yo''),
                    raw_timestamp_ms = Some 2000\<rparr>])))) None)
     = Some [(str ''You'', [\<lparr>sender_name = str ''You'', content = str ''hi'', timestamp_ms = Some 1000\<rparr>]),
             (str ''Bob'', [\<lparr>sender_name = str ''Bob'', content = str ''yo'', timestamp_ms = Some 2000\<rparr>])]
   \<and> DecodingError \<in> set (snd (handleFileUpload utf8_decode (File (Document (Messages
        ([Record \<lparr>raw_sender_name = Some (str ''You''), raw_content = Some (str ''hi''),
                  raw_timestamp_ms = Some 1000\<rparr>]
         @ Record \<lparr>raw_sender_name = Some (str ''Ann''), raw_content = Some [255],
                    raw_timestamp_ms = Some 1500\<rparr>
         # [Record \<lparr>raw_sender_name = Some (str ''Bob''), raw_content = Some (str ''yo''),
                    raw_timestamp_ms = Some 2000\<rparr>])))) None))"
proof -
  let ?bad = "\<lparr>raw_sender_name = Some (str ''Ann''), raw_content = Some [255],
               raw_timestamp_ms = Some 1500\<rparr>"
  let ?you = "Record \<lparr>raw_sender_name = Some (str ''You''), raw_content = Some (str ''hi''),
                  raw_timestamp_ms = Some 1000\<rparr>"
  let ?bob = "Record \<lparr>raw_sender_name = Some (str ''Bob''), raw_content = Some (str ''yo''),
                  raw_timestamp_ms = Some 2000\<rparr>"
  have fails: "decodeFails utf8_decode ?bad"
    by (simp add: decodeFails_def orEmpty_def leadingOnes_def)
  have rest: "fst (handleFileUpload utf8_decode (File (Document (Messages ([?you] @ [?bob])))) None)
     = Some [(str ''You'', [\<lparr>sender_name = str ''You'', content = str ''hi'', timestamp_ms = Some 1000\<rparr>]),
             (str ''Bob'', [\<lparr>sender_name = str ''Bob'', content = str ''yo'', timestamp_ms = Some 2000\<rparr>])]"
    by (simp add: handleFileUpload_def onload_def incorporate_def orEmpty_def str_def
        hasOwnProperty_def inherited_def objectPrototypeNames_def setOwn_def getOwn_def)
  have "NullElement \<notin> set ([?you] @ [?bob])"
    by simp
  with handleFileUpload_skips_undecodable [OF fails, of "[?you]" "[?bob]" None] fails rest
  show ?thesis by simp
qed

text \<open>
  The claim as stated fails: a record whose content does not decode is not incorporated
  under its original text; with that record alone the installed object is empty.
\<close>

theorem handleFileUpload_drops_undecodable:
  "decodeFails utf8_decode
     \<lparr>raw_sender_name = Some (str ''Ann''), raw_content = Some [255], raw_timestamp_ms = Some 1500\<rparr>
   \<and> handleFileUpload utf8_decode (File (Document (Messages
        [Record \<lparr>raw_sender_name = Some (str ''Ann''), raw_content = Some [255],
                 raw_timestamp_ms = Some 1500\<rparr>]))) None
     = (Some [], [DecodingError])"
  by (simp add: decodeFails_def handleFileUpload_def onload_def incorporate_def orEmpty_def
      leadingOnes_def)

section \<open>Properties of getChartData\<close>

lemma slice_take7: "slice xs 0 (Some 7) = take 7 xs"
  by (simp add: slice_def relativeIndex_def Let_def min_def)

lemma insort_key_map:
  "insort_key f (g x) (map g ys) = map g (insort_key (\<lambda>y. f (g y)) x ys)"
  by (induction ys) simp_all

lemma sort_key_map: "sort_key f (map g xs) = map g (sort_key (\<lambda>y. f (g y)) xs)"
  by (induction xs) (simp_all add: insort_key_map)

lemma mset_objectEntries: "mset (objectEntries obj) = mset obj"
  by (simp add: objectEntries_def)

lemma set_objectEntries: "set (objectEntries obj) = set obj"
  by (auto simp: objectEntries_def)

lemma length_objectEntries: "length (objectEntries obj) = length obj"
  using mset_objectEntries [of obj] by (metis size_mset)

text \<open>Every key of the object has a value: the callback never reads \<open>undefined\<close>.\<close>

lemma countUsers_entries:
  assumes "distinct (map fst d)" and "set es \<subseteq> set d"
  shows "countUsers d (map fst es) = Some (map (\<lambda>e. (fst e, length (snd e))) es)"
  using assms(2)
proof (induction es)
  case Nil
  then show ?case by simp
next
  case (Cons e es)
  then have "map_of d (fst e) = Some (snd e)"
    using assms(1) by (cases e) simp
  with Cons show ?case by (simp add: getOwn_def)
qed

text \<open>An element among the first \<open>n\<close> of a sorted list is below every element left out.\<close>

lemma top_of_sorted:
  fixes h :: "'a \<Rightarrow> int"
  assumes "x \<in> set (take n (sort_key h xs))" and "y \<in> set xs"
    and "y \<notin> set (take n (sort_key h xs))"
  shows "h x \<le> h y"
proof -
  let ?S = "sort_key h xs"
  have "set ?S = set (take n ?S) \<union> set (drop n ?S)"
    by (metis append_take_drop_id set_append)
  with assms have y: "y \<in> set (drop n ?S)" by auto
  have "sorted (map h (take n ?S) @ map h (drop n ?S))"
    by (metis append_take_drop_id map_append sorted_sort_key)
  then show ?thesis
    using assms(1) y by (auto simp: sorted_append)
qed

text \<open>
  On an object \<open>d\<close> (each sender once), \<open>getChartData\<close> returns a chart of entries
  \<open>top\<close> of \<open>d\<close>: the label is the sender, the value is the number of the messages
  held for that sender; there are 7 entries, or all of them when \<open>d\<close> has fewer; the
  values descend; and no sender left out has more messages than a sender of the chart.
\<close>

lemma getChartData_top_entries:
  assumes "distinct (map fst d)"
  shows "\<exists>top. getChartData (Some d) =
           Inr \<lparr>labels = map fst top, datasets = [map (\<lambda>e. Number (length (snd e))) top]\<rparr>
       \<and> set top \<subseteq> set d \<and> distinct (map fst top) \<and> length top = min 7 (length d)
       \<and> sorted_wrt (\<lambda>a b. length (snd b) \<le> length (snd a)) top
       \<and> (\<forall>e \<in> set d - set top. \<forall>t \<in> set top. length (snd e) \<le> length (snd t))"
proof -
  let ?h = "\<lambda>e::jsstring \<times> Message list. - int (length (snd e))"
  let ?g = "\<lambda>e::jsstring \<times> Message list. (fst e, length (snd e))"
  let ?es = "objectEntries d"
  let ?S = "sort_key ?h ?es"
  let ?top = "take 7 ?S"
  have counts: "countUsers d (objectKeys d) = Some (map ?g ?es)"
    unfolding objectKeys_def
    by (rule countUsers_entries [OF assms]) (simp add: set_objectEntries)
  have sorted_counts: "sortBy (\<lambda>a b. Some (int (snd b) - int (snd a))) (map ?g ?es) = map ?g ?S"
  proof -
    have "sortBy (\<lambda>a b. Some (int (snd b) - int (snd a))) (map ?g ?es)
        = sort_key (\<lambda>a. - int (snd a)) (map ?g ?es)"
      by (rule sortBy_sort_key) simp
    then show ?thesis by (simp add: sort_key_map)
  qed
  have chart: "getChartData (Some d) =
      Inr \<lparr>labels = map fst ?top, datasets = [map (\<lambda>e. Number (length (snd e))) ?top]\<rparr>"
    by (simp add: getChartData_def counts sorted_counts slice_take7 take_map comp_def)
  have set_S: "set ?S = set d"
    by (simp add: set_objectEntries)
  have sub: "set ?top \<subseteq> set d"
    using set_S set_take_subset [of 7 ?S] by simp
  have "mset (map fst ?S) = mset (map fst d)"
    by (simp add: mset_objectEntries)
  then have "distinct (map fst ?S)"
    using assms by (metis mset_eq_imp_distinct_iff)
  then have dist: "distinct (map fst ?top)"
    by (simp add: take_map [symmetric] del: take_map)
  have len: "length ?top = min 7 (length d)"
    by (simp add: length_objectEntries min.commute)
  have "sorted (map ?h ?top)"
    by (metis sorted_sort_key sorted_wrt_take take_map)
  then have desc: "sorted_wrt (\<lambda>a b. length (snd b) \<le> length (snd a)) ?top"
    by (simp add: sorted_wrt_map)
  have best: "\<forall>e \<in> set d - set ?top. \<forall>t \<in> set ?top. length (snd e) \<le> length (snd t)"
  proof (intro ballI)
    fix e t
    assume e: "e \<in> set d - set ?top" and t: "t \<in> set ?top"
    then have "?h t \<le> ?h e"
      by (intro top_of_sorted [of t 7 ?h ?es e]) (simp_all add: set_objectEntries)
    then show "length (snd e) \<le> length (snd t)" by simp
  qed
  from chart sub dist len desc best show ?thesis by blast
qed

text \<open>
  The loop of the upload groups the messages by sender: if the object held the messages
  \<open>L\<close> grouped, the object built holds \<open>L\<close> and the messages of the upload grouped.
\<close>

lemma getOwn_Some_iff:
  "distinct (map fst um) \<Longrightarrow> (getOwn um k = Some v) = ((k, v) \<in> set um)"
  by (simp add: getOwn_def)

lemma getOwn_None_iff: "(getOwn um k = None) = (\<not> hasOwnProperty um k)"
  by (simp add: getOwn_def hasOwnProperty_def map_of_eq_None_iff)

lemma setOwn_absent_key:
  "k \<notin> fst ` set um \<Longrightarrow> map (\<lambda>e. if fst e = k then (k, v) else e) um = um"
  by (induction um) auto

lemma incorporate_ingested_None:
  assumes "grouped um L" and "ingestedMessage decode r = None"
  shows "incorporate decode um r = None"
proof (cases "decode (orEmpty (raw_content r))")
  case None
  then show ?thesis by (simp add: incorporate_def)
next
  case c: (Some c)
  show ?thesis
  proof (cases "decode (orEmpty (raw_sender_name r))")
    case None
    with c show ?thesis by (simp add: incorporate_def)
  next
    case n: (Some n)
    with assms(2) c have inh: "inherited n"
      by (simp add: ingestedMessage_def split: if_splits)
    have "\<forall>e \<in> set um. \<not> inherited (fst e)"
      using assms(1) by (simp add: grouped_def list_all_iff)
    with inh have "\<not> hasOwnProperty um n"
      by (auto simp: hasOwnProperty_def)
    then have "getOwn um n = None"
      by (simp add: getOwn_None_iff)
    with c n inh show ?thesis
      by (simp add: incorporate_def)
  qed
qed

lemma incorporate_ingested_Some:
  assumes "grouped um L" and "ingestedMessage decode r = Some m"
  shows "\<exists>um'. incorporate decode um r = Some um' \<and> grouped um' (L @ [m])"
proof -
  from assms(2) obtain c where c: "decode (orEmpty (raw_content r)) = Some c"
    and n: "decode (orEmpty (raw_sender_name r)) = Some (sender_name m)"
    and ninh: "\<not> inherited (sender_name m)"
    and m: "m = \<lparr>sender_name = sender_name m, content = c, timestamp_ms = raw_timestamp_ms r\<rparr>"
    by (auto simp: ingestedMessage_def split: option.splits if_splits)
  let ?n = "sender_name m"
  from assms(1) have dist: "distinct (map fst um)"
    and all: "\<And>e. e \<in> set um \<Longrightarrow> \<not> inherited (fst e) \<and> snd e = filter (\<lambda>x. sender_name x = fst e) L"
    and keys: "set (map fst um) = set (map sender_name L)"
    by (auto simp: grouped_def list_all_iff)
  show ?thesis
  proof (cases "hasOwnProperty um ?n")
    case True
    then obtain msgs where own: "getOwn um ?n = Some msgs"
      by (cases "getOwn um ?n") (auto simp: getOwn_None_iff)
    let ?um' = "setOwn um ?n (msgs @ [m])"
    have inc: "incorporate decode um r = Some ?um'"
      using c n True own m by (simp add: incorporate_def)
    have um': "?um' = map (\<lambda>e. if fst e = ?n then (?n, msgs @ [m]) else e) um"
      using True by (simp add: setOwn_def)
    have k': "map fst ?um' = map fst um"
      unfolding um' by (induction um) auto
    have in_um: "(?n, msgs) \<in> set um"
      using own dist by (simp add: getOwn_Some_iff)
    have "grouped ?um' (L @ [m])"
      unfolding grouped_def
    proof (intro conjI)
      show "distinct (map fst ?um')" using dist k' by simp
      show "list_all (\<lambda>e. \<not> inherited (fst e) \<and> snd e = filter (\<lambda>x. sender_name x = fst e) (L @ [m])) ?um'"
        unfolding um' list_all_iff
      proof (intro ballI)
        fix e assume "e \<in> set (map (\<lambda>e. if fst e = ?n then (?n, msgs @ [m]) else e) um)"
        then have "e \<in> (\<lambda>e. if fst e = ?n then (?n, msgs @ [m]) else e) ` set um"
          by (simp only: set_map)
        then obtain e0 where e: "e = (if fst e0 = ?n then (?n, msgs @ [m]) else e0)"
          and e0: "e0 \<in> set um"
          by (rule imageE)
        show "\<not> inherited (fst e) \<and> snd e = filter (\<lambda>x. sender_name x = fst e) (L @ [m])"
        proof (cases "fst e0 = ?n")
          case True
          with e0 in_um dist have "e0 = (?n, msgs)"
            by (metis eq_key_imp_eq_value prod.collapse)
          with all [OF e0] e True ninh show ?thesis by simp
        next
          case False
          with all [OF e0] e show ?thesis by auto
        qed
      qed
      show "set (map fst ?um') = set (map sender_name (L @ [m]))"
        using keys k' True by (auto simp: hasOwnProperty_def)
    qed
    with inc show ?thesis by blast
  next
    case False
    let ?created = "setOwn um ?n []"
    have created: "?created = um @ [(?n, [])]"
      using False by (simp add: setOwn_def)
    have "map_of um ?n = None"
      using False by (simp add: hasOwnProperty_def map_of_eq_None_iff)
    then have own: "getOwn ?created ?n = Some []"
      by (simp add: created getOwn_def map_add_def)
    let ?um' = "um @ [(?n, [m])]"
    have "setOwn ?created ?n ([] @ [m]) = ?um'"
      using False by (auto simp: created setOwn_def hasOwnProperty_def setOwn_absent_key)
    then have inc: "incorporate decode um r = Some ?um'"
      using c n False ninh own m by (simp add: incorporate_def)
    have "?n \<notin> sender_name ` set L"
      using False keys by (simp add: hasOwnProperty_def)
    then have none: "filter (\<lambda>x. sender_name x = ?n) L = []"
      by (auto simp: filter_empty_conv intro: rev_image_eqI)
    have "grouped ?um' (L @ [m])"
      unfolding grouped_def
    proof (intro conjI)
      show "distinct (map fst ?um')" using dist False by (simp add: hasOwnProperty_def)
      show "list_all (\<lambda>e. \<not> inherited (fst e) \<and> snd e = filter (\<lambda>x. sender_name x = fst e) (L @ [m])) ?um'"
        using all none ninh False by (auto simp: list_all_iff hasOwnProperty_def)
      show "set (map fst ?um') = set (map sender_name (L @ [m]))"
        using keys by auto
    qed
    with inc show ?thesis by blast
  qed
qed

lemma forEachMessage_grouped:
  assumes "fst (forEachMessage decode ms um) = Inr d" and "grouped um L"
  shows "grouped d (L @ ingestedMessages decode ms)"
  using assms
proof (induction ms arbitrary: um L)
  case Nil
  then show ?case by simp
next
  case (Cons e ms)
  show ?case
  proof (cases e)
    case NullElement
    with Cons.prems show ?thesis by simp
  next
    case (Record r)
    show ?thesis
    proof (cases "ingestedMessage decode r")
      case None
      then have "incorporate decode um r = None"
        using Cons.prems(2) incorporate_ingested_None by blast
      with Cons Record None show ?thesis
        by (simp add: fst_forEachMessage_Record del: forEachMessage.simps)
    next
      case (Some m)
      then obtain um' where inc: "incorporate decode um r = Some um'" and g: "grouped um' (L @ [m])"
        using Cons.prems(2) incorporate_ingested_Some by blast
      from Cons.prems(1) Record inc have "fst (forEachMessage decode ms um') = Inr d"
        by (simp add: fst_forEachMessage_Record del: forEachMessage.simps)
      then have "grouped d ((L @ [m]) @ ingestedMessages decode ms)"
        using g Cons.IH by blast
      with Record Some show ?thesis by simp
    qed
  qed
qed


text \<open>
  C6. For the object \<open>d\<close> that an upload installs, \<open>getChartData\<close> counts, for each
  sender, all the messages of the upload with that sender name (\<open>filterMessages\<close> is
  not applied), and returns the 7 senders with the highest counts (all of them when
  there are fewer), in descending order of count: the chart is made of entries \<open>top\<close>
  of \<open>d\<close>, labelled with the sender and valued with the number of its messages; the
  values descend, and no sender left out has more messages than a sender of the chart.
\<close>

theorem getChartData_top_senders:
  assumes "handleFileUpload decode (File (Document (Messages ms))) data = (Some d, log)"
    and "ParsingError \<notin> set log"
  shows "\<exists>top. getChartData (Some d) =
           Inr \<lparr>labels = map fst top, datasets = [map (\<lambda>e. Number (length (snd e))) top]\<rparr>
       \<and> set top \<subseteq> set d \<and> distinct (map fst top) \<and> length top = min 7 (length d)
       \<and> sorted_wrt (\<lambda>a b. length (snd b) \<le> length (snd a)) top
       \<and> (\<forall>e \<in> set d - set top. \<forall>t \<in> set top. length (snd e) \<le> length (snd t))
       \<and> (\<forall>e \<in> set d.
             snd e = filter (\<lambda>m. sender_name m = fst e) (ingestedMessages decode ms))
       \<and> set (map fst d) = set (map sender_name (ingestedMessages decode ms))"
proof -
  from assms have "fst (forEachMessage decode ms []) = Inr d"
    by (auto simp: handleFileUpload_def onload_def split: prod.splits sum.splits)
  moreover have "grouped [] []"
    by (simp add: grouped_def)
  ultimately have "grouped d ([] @ ingestedMessages decode ms)"
    by (rule forEachMessage_grouped)
  then have dist: "distinct (map fst d)"
    and groups: "\<forall>e \<in> set d.
       snd e = filter (\<lambda>m. sender_name m = fst e) (ingestedMessages decode ms)"
    and senders: "set (map fst d) = set (map sender_name (ingestedMessages decode ms))"
    by (simp_all add: grouped_def list_all_iff)
  from getChartData_top_entries [OF dist] groups senders show ?thesis
    by blast
qed

theorem getChartData_top_senders_witness:
  "handleFileUpload utf8_decode (File (Document (Messages
      [Record \<lparr>raw_sender_name = Some (str ''You''), raw_content = Some (str ''hi''),
                raw_timestamp_ms = Some 1000\<rparr>,
       Record \<lparr>raw_sender_name = Some (str ''Bob''), raw_content = Some (str ''liked a message''),
                raw_timestamp_ms = Some 2000\<rparr>]))) None
     = (Some
     [(str ''You'', [\<lparr>sender_name = str ''You'', content = str ''hi'', timestamp_ms = Some 1000\<rparr>]),
      (str ''Bob'', [\<lparr>sender_name = str ''Bob'', content = str ''liked a message'',
                      timestamp_ms = Some 2000\<rparr>])], [])
   \<and> ParsingError \<notin> set []
   \<and> getChartData (Some
     [(str ''You'', [\<lparr>sender_name = str ''You'', content = str ''hi'', timestamp_ms = Some 1000\<rparr>]),
      (str ''Bob'', [\<lparr>sender_name = str ''Bob'', content = str ''liked a message'',
                      timestamp_ms = Some 2000\<rparr>])])
     = Inr \<lparr>labels = [str ''You'', str ''Bob''], datasets = [[Number 1, Number 1]]\<rparr>
   \<and> filterMessages (\<lambda>s. s)
        [\<lparr>sender_name = str ''Bob'', content = str ''liked a message'', timestamp_ms = Some 2000\<rparr>]
     = []"
proof -
  let ?ms = "[Record \<lparr>raw_sender_name = Some (str ''You''), raw_content = Some (str ''hi''),
                raw_timestamp_ms = Some 1000\<rparr>,
       Record \<lparr>raw_sender_name = Some (str ''Bob''), raw_content = Some (str ''liked a message''),
                raw_timestamp_ms = Some 2000\<rparr>]"
  let ?d = "[(str ''You'', [\<lparr>sender_name = str ''You'', content = str ''hi'', timestamp_ms = Some 1000\<rparr>]),
      (str ''Bob'', [\<lparr>sender_name = str ''Bob'', content = str ''liked a message'',
                      timestamp_ms = Some 2000\<rparr>])]"
  have ingested: "handleFileUpload utf8_decode (File (Document (Messages ?ms))) None = (Some ?d, [])"
    by (simp add: handleFileUpload_def onload_def incorporate_def orEmpty_def str_def
        hasOwnProperty_def inherited_def objectPrototypeNames_def setOwn_def getOwn_def)
  have nolog: "ParsingError \<notin> set []"
    by simp
  from getChartData_top_senders [OF ingested nolog] obtain top where
    chart: "getChartData (Some ?d) =
       Inr \<lparr>labels = map fst top, datasets = [map (\<lambda>e. Number (length (snd e))) top]\<rparr>"
    and sub: "set top \<subseteq> set ?d" and len: "length top = min 7 (length ?d)"
    by blast
  have "getChartData (Some ?d)
     = Inr \<lparr>labels = [str ''You'', str ''Bob''], datasets = [[Number 1, Number 1]]\<rparr>"
    by (simp add: getChartData_def objectKeys_def objectEntries_def isArrayIndex_def isDigit_def
        getOwn_def str_def slice_take7 sortBy_def sortCompare_def)
  moreover have "filterMessages (\<lambda>s. s)
        [\<lparr>sender_name = str ''Bob'', content = str ''liked a message'', timestamp_ms = Some 2000\<rparr>]
     = []"
    by (simp add: filterMessages_def keepMessage_def str_def trim_def isWhiteSpace_def
      toLowerCase_def isAscii_def lowerAscii_def startsWith_def hasNonAscii_def)
  ultimately show ?thesis using chart ingested by simp
qed

section \<open>Properties of getTopMessages\<close>

lemma firstOccurrences_snoc:
  "firstOccurrences (xs @ [x]) =
     (if x \<in> set xs then firstOccurrences xs else firstOccurrences xs @ [x])"
  by (simp add: firstOccurrences_def)

lemma set_firstOccurrences: "set (firstOccurrences xs) = set xs"
  by (simp add: firstOccurrences_def)

lemma proto_inherited: "inherited (str ''__proto__'')"
  by (simp add: inherited_def objectPrototypeNames_def)

lemma getOwn_tabulate:
  "getOwn (map (\<lambda>k. (k, f k)) ks) c = (if c \<in> set ks then Some (f c) else None)"
  by (induction ks) (auto simp: getOwn_def)

lemma hasOwnProperty_tabulate:
  "hasOwnProperty (map (\<lambda>k. (k, f k)) ks) c = (c \<in> set ks)"
  by (auto simp: hasOwnProperty_def comp_def)

text \<open>
  One turn of the loop, on the object that holds, for the contents \<open>cs\<close> seen so far,
  each distinct one with its number of occurrences, in the order of first occurrence.
\<close>

lemma countMessage_tabulate:
  assumes "\<not> inherited (content m)"
  shows "countMessage (map (\<lambda>k. (k, Number (count_list cs k))) (firstOccurrences cs)) m
       = map (\<lambda>k. (k, Number (count_list (cs @ [content m]) k)))
           (firstOccurrences (cs @ [content m]))"
proof (cases "content m \<in> set cs")
  case True
  then show ?thesis
    by (simp add: countMessage_def getOwn_tabulate set_firstOccurrences setOwn_def
        hasOwnProperty_tabulate plusOne_def firstOccurrences_snoc comp_def)
next
  case False
  moreover have "content m \<noteq> str ''__proto__''"
    using assms proto_inherited by auto
  moreover have "count_list cs (content m) = 0"
    using False by (simp add: count_list_0_iff)
  ultimately show ?thesis
    using assms
    by (auto simp: countMessage_def getOwn_tabulate set_firstOccurrences setOwn_def
        hasOwnProperty_tabulate firstOccurrences_snoc)
qed

lemma foldl_countMessage:
  assumes "\<forall>m \<in> set ms. \<not> inherited (content m)"
  shows "foldl countMessage [] ms
       = map (\<lambda>k. (k, Number (count_list (map content ms) k))) (firstOccurrences (map content ms))"
  using assms
proof (induction ms rule: rev_induct)
  case Nil
  then show ?case by (simp add: firstOccurrences_def)
next
  case (snoc m ms)
  then show ?case
    by (simp add: countMessage_tabulate)
qed

lemma objectEntries_tabulate:
  "objectEntries (map (\<lambda>k. (k, f k)) ks) = map (\<lambda>k. (k, f k)) (propertyOrder ks)"
  by (simp add: objectEntries_def propertyOrder_def filter_map comp_def sort_key_map)

lemma sortBy_byCountDescending:
  "sortBy byCountDescending (map (\<lambda>k. (k, Number (n k))) ks)
     = map (\<lambda>k. (k, Number (n k))) (sort_key (\<lambda>k. - int (n k)) ks)"
proof -
  let ?f = "\<lambda>e::jsstring \<times> jsvalue. (case snd e of Number c \<Rightarrow> - int c | Text \<Rightarrow> 0)"
  have "sortBy byCountDescending (map (\<lambda>k. (k, Number (n k))) ks)
      = sort_key ?f (map (\<lambda>k. (k, Number (n k))) ks)"
    by (rule sortBy_sort_key) (auto simp: byCountDescending_def)
  then show ?thesis by (simp add: sort_key_map)
qed

text \<open>
  C5, as amended. When no content that survives the filter is a name inherited from
  \<open>Object.prototype\<close>, \<open>getTopMessages\<close> filters the messages, counts the
  occurrences of each distinct trimmed content among the survivors, and returns the 7
  most frequent contents with their counts as parallel sequences, in descending order of
  count; among equal counts the order is the enumeration order of the properties:
  contents that are array indices first, in ascending numeric order, then the other
  contents in the order of first occurrence.
\<close>

theorem getTopMessages_topContents:
  assumes "\<forall>m \<in> set (filterMessages U messages). \<not> inherited (content m)"
  shows "getTopMessages U messages =
     \<lparr>labels = topContents (map content (filterMessages U messages)),
      datasets = [map (\<lambda>k. Number (count_list (map content (filterMessages U messages)) k))
                    (topContents (map content (filterMessages U messages)))]\<rparr>"
  by (simp add: getTopMessages_def foldl_countMessage [OF assms] objectEntries_tabulate
      sortBy_byCountDescending slice_take7 topContents_def take_map comp_def)

theorem getTopMessages_topContents_witness:
  "list_all (\<lambda>m. \<not> inherited (content m)) (filterMessages (\<lambda>s. s)
       [\<lparr>sender_name = str ''You'', content = str ''b'', timestamp_ms = Some 1\<rparr>,
        \<lparr>sender_name = str ''You'', content = str ''hi'', timestamp_ms = Some 2\<rparr>,
        \<lparr>sender_name = str ''Bob'', content = str ''hi '', timestamp_ms = Some 3\<rparr>,
        \<lparr>sender_name = str ''Bob'', content = str ''10'', timestamp_ms = Some 4\<rparr>,
        \<lparr>sender_name = str ''You'', content = str ''I like it'', timestamp_ms = Some 5\<rparr>,
        \<lparr>sender_name = str ''You'', content = str ''hi'', timestamp_ms = Some 6\<rparr>,
        \<lparr>sender_name = str ''Bob'', content = str ''9'', timestamp_ms = Some 7\<rparr>,
        \<lparr>sender_name = str ''Bob'', content = str '' hi'', timestamp_ms = Some 8\<rparr>])
   \<and> getTopMessages (\<lambda>s. s)
       [\<lparr>sender_name = str ''You'', content = str ''b'', timestamp_ms = Some 1\<rparr>,
        \<lparr>sender_name = str ''You'', content = str ''hi'', timestamp_ms = Some 2\<rparr>,
        \<lparr>sender_name = str ''Bob'', content = str ''hi '', timestamp_ms = Some 3\<rparr>,
        \<lparr>sender_name = str ''Bob'', content = str ''10'', timestamp_ms = Some 4\<rparr>,
        \<lparr>sender_name = str ''You'', content = str ''I like it'', timestamp_ms = Some 5\<rparr>,
        \<lparr>sender_name = str ''You'', content = str ''hi'', timestamp_ms = Some 6\<rparr>,
        \<lparr>sender_name = str ''Bob'', content = str ''9'', timestamp_ms = Some 7\<rparr>,
        \<lparr>sender_name = str ''Bob'', content = str '' hi'', timestamp_ms = Some 8\<rparr>]
     = \<lparr>labels = [str ''hi'', str ''9'', str ''10'', str ''b''],
        datasets = [[Number 4, Number 1, Number 1, Number 1]]\<rparr>"
proof -
  let ?ms = "[\<lparr>sender_name = str ''You'', content = str ''b'', timestamp_ms = Some 1\<rparr>,
        \<lparr>sender_name = str ''You'', content = str ''hi'', timestamp_ms = Some 2\<rparr>,
        \<lparr>sender_name = str ''Bob'', content = str ''hi '', timestamp_ms = Some 3\<rparr>,
        \<lparr>sender_name = str ''Bob'', content = str ''10'', timestamp_ms = Some 4\<rparr>,
        \<lparr>sender_name = str ''You'', content = str ''I like it'', timestamp_ms = Some 5\<rparr>,
        \<lparr>sender_name = str ''You'', content = str ''hi'', timestamp_ms = Some 6\<rparr>,
        \<lparr>sender_name = str ''Bob'', content = str ''9'', timestamp_ms = Some 7\<rparr>,
        \<lparr>sender_name = str ''Bob'', content = str '' hi'', timestamp_ms = Some 8\<rparr>]"
  have hyp: "list_all (\<lambda>m. \<not> inherited (content m)) (filterMessages (\<lambda>s. s) ?ms)"
    by (simp add: filterMessages_def keepMessage_def str_def trim_def isWhiteSpace_def
        toLowerCase_def isAscii_def lowerAscii_def startsWith_def hasNonAscii_def
        inherited_def objectPrototypeNames_def)
  then have hyp': "\<forall>m \<in> set (filterMessages (\<lambda>s. s) ?ms). \<not> inherited (content m)"
    by (simp add: list_all_iff)
  have "getTopMessages (\<lambda>s. s) ?ms
     = \<lparr>labels = [str ''hi'', str ''9'', str ''10'', str ''b''],
        datasets = [[Number 4, Number 1, Number 1, Number 1]]\<rparr>"
    using getTopMessages_topContents [OF hyp']
    by (simp add: topContents_def filterMessages_def keepMessage_def str_def trim_def
        isWhiteSpace_def toLowerCase_def isAscii_def lowerAscii_def startsWith_def
        hasNonAscii_def firstOccurrences_def propertyOrder_def isArrayIndex_def isDigit_def
        digitsValue_def)
  with hyp show ?thesis by blast
qed

text \<open>
  The claim as stated fails: the contents \<open>b\<close> and \<open>1\<close>, met in that order and once
  each, are returned with \<open>1\<close> first, since \<open>1\<close> is an array index.
\<close>

theorem getTopMessages_tie_not_first_encountered:
  "getTopMessages (\<lambda>s. s)
     [\<lparr>sender_name = str ''You'', content = str ''b'', timestamp_ms = Some 1000\<rparr>,
      \<lparr>sender_name = str ''You'', content = str ''1'', timestamp_ms = Some 2000\<rparr>]
   = \<lparr>labels = [str ''1'', str ''b''], datasets = [[Number 1, Number 1]]\<rparr>
   \<and> firstOccurrences (map content (filterMessages (\<lambda>s. s)
     [\<lparr>sender_name = str ''You'', content = str ''b'', timestamp_ms = Some 1000\<rparr>,
      \<lparr>sender_name = str ''You'', content = str ''1'', timestamp_ms = Some 2000\<rparr>]))
   = [str ''b'', str ''1'']"
  by (simp add: getTopMessages_def filterMessages_def keepMessage_def str_def trim_def
      isWhiteSpace_def toLowerCase_def isAscii_def lowerAscii_def startsWith_def hasNonAscii_def
      countMessage_def getOwn_def setOwn_def hasOwnProperty_def inherited_def
      objectPrototypeNames_def objectEntries_def isArrayIndex_def isDigit_def digitsValue_def
      sortBy_def sortCompare_def byCountDescending_def slice_take7 firstOccurrences_def)

end
